theory Spec2Isabelle
  imports Main
begin

section \<open>The relational schema (migration.sql)\<close>

text \<open>
  The migration creates four tables. A table is the list of its rows, in insertion
  order. A column declared \<^verbatim>\<open>NOT NULL\<close> has the type of its values; a nullable column
  (\<^verbatim>\<open>"tags" TEXT[]\<close>, \<^verbatim>\<open>"dependencies" TEXT[]\<close>, \<^verbatim>\<open>"changelog" TEXT\<close>, the user's
  \<^verbatim>\<open>"name" TEXT\<close>) is an option, \<open>None\<close> being SQL's NULL. Timestamps are points of a
  discrete clock. Every table has a column called \<^verbatim>\<open>id\<close>, so the columns carry the
  table as a prefix.
\<close>

type_synonym timestamp = nat

record component_row =
  cmp_id :: string
  cmp_name :: string
  cmp_description :: string
  cmp_category :: string
  cmp_tags :: "string list option"
  cmp_filePath :: string
  cmp_componentPath :: string
  cmp_code :: string
  cmp_dependencies :: "string list option"
  cmp_responsive :: bool
  cmp_darkMode :: bool
  cmp_views :: int
  cmp_copies :: int
  cmp_createdAt :: timestamp
  cmp_updatedAt :: timestamp

record favorite_row =
  fav_id :: string
  fav_userId :: string
  fav_componentId :: string
  fav_createdAt :: timestamp

record version_row =
  ver_id :: string
  ver_componentId :: string
  ver_version :: string
  ver_code :: string
  ver_changelog :: "string option"
  ver_createdAt :: timestamp

record user_row =
  usr_id :: string
  usr_email :: string
  usr_name :: "string option"
  usr_role :: string
  usr_createdAt :: timestamp
  usr_updatedAt :: timestamp

record database =
  Component :: "component_row list"
  Favorite :: "favorite_row list"
  ComponentVersion :: "version_row list"
  User :: "user_row list"

text \<open>The state right after the migration: four empty tables.\<close>

definition migrated :: database where
  "migrated = \<lparr>Component = [], Favorite = [], ComponentVersion = [], User = []\<rparr>"

text \<open>
  What a rejected query reports: the name of the unique index or primary key that a row
  would violate, the name of the foreign key that a row would violate, that the
  database could not be reached at all, or the name of an argument that the client
  refused before sending anything.
\<close>

datatype prisma_error =
    UniqueViolation string
  | ForeignKeyViolation string
  | Unreachable
  | ValidationError string

subsection \<open>Insertions, deletions and updates\<close>

text \<open>
  The key of the unique index
  \<^verbatim>\<open>CREATE UNIQUE INDEX "Favorite_userId_componentId_key" ON "Favorite"("userId", "componentId")\<close>.
\<close>

definition fav_key :: "favorite_row \<Rightarrow> string \<times> string" where
  "fav_key f = (fav_userId f, fav_componentId f)"

text \<open>
  \<^verbatim>\<open>INSERT INTO "Component"\<close>: the primary key \<^verbatim>\<open>Component_pkey\<close> is the only
  constraint of the table. A statement that fails changes nothing.
\<close>

definition insert_component :: "component_row \<Rightarrow> database \<Rightarrow> prisma_error option \<times> database" where
  "insert_component r db =
     (if cmp_id r \<in> set (map cmp_id (Component db))
      then (Some (UniqueViolation ''Component_pkey''), db)
      else (None, db\<lparr>Component := Component db @ [r]\<rparr>))"

text \<open>
  \<^verbatim>\<open>DELETE FROM "Component" WHERE ...\<close>: the rows that satisfy the condition go, and
  with them, by \<^verbatim>\<open>Favorite_componentId_fkey\<close> and \<^verbatim>\<open>ComponentVersion_componentId_fkey\<close>
  (both \<^verbatim>\<open>ON DELETE CASCADE\<close>), every favorite and every version whose componentId is
  the id of a deleted row.
\<close>

definition delete_components :: "(component_row \<Rightarrow> bool) \<Rightarrow> database \<Rightarrow> database" where
  "delete_components cond db =
     (let gone = map cmp_id (filter cond (Component db)) in
      db\<lparr>Component := filter (\<lambda>r. \<not> cond r) (Component db),
         Favorite := filter (\<lambda>f. fav_componentId f \<notin> set gone) (Favorite db),
         ComponentVersion :=
           filter (\<lambda>v. ver_componentId v \<notin> set gone) (ComponentVersion db)\<rparr>)"

text \<open>
  \<^verbatim>\<open>INSERT INTO "Favorite"\<close>: the unique indexes are checked in the order of their
  creation (\<^verbatim>\<open>Favorite_pkey\<close>, then \<^verbatim>\<open>Favorite_userId_componentId_key\<close>), the foreign key
  to the component after them.
\<close>

definition insert_favorite :: "favorite_row \<Rightarrow> database \<Rightarrow> prisma_error option \<times> database" where
  "insert_favorite f db =
     (if fav_id f \<in> set (map fav_id (Favorite db))
      then (Some (UniqueViolation ''Favorite_pkey''), db)
      else if fav_key f \<in> set (map fav_key (Favorite db))
      then (Some (UniqueViolation ''Favorite_userId_componentId_key''), db)
      else if fav_componentId f \<notin> set (map cmp_id (Component db))
      then (Some (ForeignKeyViolation ''Favorite_componentId_fkey''), db)
      else (None, db\<lparr>Favorite := Favorite db @ [f]\<rparr>))"

definition delete_favorites :: "(favorite_row \<Rightarrow> bool) \<Rightarrow> database \<Rightarrow> database" where
  "delete_favorites cond db = db\<lparr>Favorite := filter (\<lambda>f. \<not> cond f) (Favorite db)\<rparr>"

definition insert_version :: "version_row \<Rightarrow> database \<Rightarrow> prisma_error option \<times> database" where
  "insert_version v db =
     (if ver_id v \<in> set (map ver_id (ComponentVersion db))
      then (Some (UniqueViolation ''ComponentVersion_pkey''), db)
      else if ver_componentId v \<notin> set (map cmp_id (Component db))
      then (Some (ForeignKeyViolation ''ComponentVersion_componentId_fkey''), db)
      else (None, db\<lparr>ComponentVersion := ComponentVersion db @ [v]\<rparr>))"

definition delete_versions :: "(version_row \<Rightarrow> bool) \<Rightarrow> database \<Rightarrow> database" where
  "delete_versions cond db =
     db\<lparr>ComponentVersion := filter (\<lambda>v. \<not> cond v) (ComponentVersion db)\<rparr>"

definition insert_user :: "user_row \<Rightarrow> database \<Rightarrow> prisma_error option \<times> database" where
  "insert_user u db =
     (if usr_id u \<in> set (map usr_id (User db))
      then (Some (UniqueViolation ''User_pkey''), db)
      else if usr_email u \<in> set (map usr_email (User db))
      then (Some (UniqueViolation ''User_email_key''), db)
      else (None, db\<lparr>User := User db @ [u]\<rparr>))"

text \<open>No foreign key references the User table: a favorite's userId is a plain column.\<close>

definition delete_users :: "(user_row \<Rightarrow> bool) \<Rightarrow> database \<Rightarrow> database" where
  "delete_users cond db = db\<lparr>User := filter (\<lambda>u. \<not> cond u) (User db)\<rparr>"

text \<open>
  \<^verbatim>\<open>UPDATE ... WHERE "id" = ...\<close> writes new values into the row with the given id, if
  there is one; an update that matches no row changes nothing and succeeds. The new
  values are checked against the other rows of the table. When the id of a component
  changes, the favorites and the versions that reference it follow
  (\<^verbatim>\<open>ON UPDATE CASCADE\<close>), and the favorites that followed are checked against their
  unique index.
\<close>

definition update_component ::
  "string \<Rightarrow> component_row \<Rightarrow> database \<Rightarrow> prisma_error option \<times> database" where
  "update_component cid r db =
     (let others = filter (\<lambda>x. cmp_id x \<noteq> cid) (Component db);
          favorites = map (\<lambda>f. if fav_componentId f = cid
                                then f\<lparr>fav_componentId := cmp_id r\<rparr> else f) (Favorite db);
          versions = map (\<lambda>v. if ver_componentId v = cid
                               then v\<lparr>ver_componentId := cmp_id r\<rparr> else v)
                       (ComponentVersion db)
      in if cid \<notin> set (map cmp_id (Component db)) then (None, db)
         else if cmp_id r \<in> set (map cmp_id others)
         then (Some (UniqueViolation ''Component_pkey''), db)
         else if \<not> distinct (map fav_key favorites)
         then (Some (UniqueViolation ''Favorite_userId_componentId_key''), db)
         else (None, db\<lparr>Component := map (\<lambda>x. if cmp_id x = cid then r else x) (Component db),
                         Favorite := favorites,
                         ComponentVersion := versions\<rparr>))"

definition update_favorite ::
  "string \<Rightarrow> favorite_row \<Rightarrow> database \<Rightarrow> prisma_error option \<times> database" where
  "update_favorite fid f db =
     (let others = filter (\<lambda>x. fav_id x \<noteq> fid) (Favorite db)
      in if fid \<notin> set (map fav_id (Favorite db)) then (None, db)
         else if fav_id f \<in> set (map fav_id others)
         then (Some (UniqueViolation ''Favorite_pkey''), db)
         else if fav_key f \<in> set (map fav_key others)
         then (Some (UniqueViolation ''Favorite_userId_componentId_key''), db)
         else if fav_componentId f \<notin> set (map cmp_id (Component db))
         then (Some (ForeignKeyViolation ''Favorite_componentId_fkey''), db)
         else (None, db\<lparr>Favorite := map (\<lambda>x. if fav_id x = fid then f else x) (Favorite db)\<rparr>))"

definition update_version ::
  "string \<Rightarrow> version_row \<Rightarrow> database \<Rightarrow> prisma_error option \<times> database" where
  "update_version vid v db =
     (let others = filter (\<lambda>x. ver_id x \<noteq> vid) (ComponentVersion db)
      in if vid \<notin> set (map ver_id (ComponentVersion db)) then (None, db)
         else if ver_id v \<in> set (map ver_id others)
         then (Some (UniqueViolation ''ComponentVersion_pkey''), db)
         else if ver_componentId v \<notin> set (map cmp_id (Component db))
         then (Some (ForeignKeyViolation ''ComponentVersion_componentId_fkey''), db)
         else (None, db\<lparr>ComponentVersion :=
                           map (\<lambda>x. if ver_id x = vid then v else x) (ComponentVersion db)\<rparr>))"

definition update_user ::
  "string \<Rightarrow> user_row \<Rightarrow> database \<Rightarrow> prisma_error option \<times> database" where
  "update_user uid u db =
     (let others = filter (\<lambda>x. usr_id x \<noteq> uid) (User db)
      in if uid \<notin> set (map usr_id (User db)) then (None, db)
         else if usr_id u \<in> set (map usr_id others)
         then (Some (UniqueViolation ''User_pkey''), db)
         else if usr_email u \<in> set (map usr_email others)
         then (Some (UniqueViolation ''User_email_key''), db)
         else (None, db\<lparr>User := map (\<lambda>x. if usr_id x = uid then u else x) (User db)\<rparr>))"

subsection \<open>Statements and the states they reach\<close>

datatype statement =
    InsertComponent component_row
  | DeleteComponents "component_row \<Rightarrow> bool"
  | InsertFavorite favorite_row
  | DeleteFavorites "favorite_row \<Rightarrow> bool"
  | InsertVersion version_row
  | DeleteVersions "version_row \<Rightarrow> bool"
  | InsertUser user_row
  | DeleteUsers "user_row \<Rightarrow> bool"
  | UpdateComponent string component_row
  | UpdateFavorite string favorite_row
  | UpdateVersion string version_row
  | UpdateUser string user_row

fun exec :: "statement \<Rightarrow> database \<Rightarrow> prisma_error option \<times> database" where
  "exec (InsertComponent r) db = insert_component r db"
| "exec (DeleteComponents cond) db = (None, delete_components cond db)"
| "exec (InsertFavorite f) db = insert_favorite f db"
| "exec (DeleteFavorites cond) db = (None, delete_favorites cond db)"
| "exec (InsertVersion v) db = insert_version v db"
| "exec (DeleteVersions cond) db = (None, delete_versions cond db)"
| "exec (InsertUser u) db = insert_user u db"
| "exec (DeleteUsers cond) db = (None, delete_users cond db)"
| "exec (UpdateComponent cid r) db = update_component cid r db"
| "exec (UpdateFavorite fid f) db = update_favorite fid f db"
| "exec (UpdateVersion vid v) db = update_version vid v db"
| "exec (UpdateUser uid u) db = update_user uid u db"

text \<open>
  The states of the database: the migrated one, and whatever a sequence of row
  insertions, deletions and updates makes of it.
\<close>

inductive reachable :: "database \<Rightarrow> bool" where
  start: "reachable migrated"
| step: "reachable db \<Longrightarrow> reachable (snd (exec s db))"

text \<open>
  What the constraints of the schema promise of a state: every favorite and every version
  references the id of a component in the table, and the primary keys and the unique
  indexes hold each value once.
\<close>

definition references_hold :: "database \<Rightarrow> bool" where
  "references_hold db \<longleftrightarrow>
     list_all (\<lambda>f. fav_componentId f \<in> set (map cmp_id (Component db))) (Favorite db) \<and>
     list_all (\<lambda>v. ver_componentId v \<in> set (map cmp_id (Component db))) (ComponentVersion db)"

definition keys_unique :: "database \<Rightarrow> bool" where
  "keys_unique db \<longleftrightarrow>
     distinct (map cmp_id (Component db)) \<and>
     distinct (map fav_id (Favorite db)) \<and>
     distinct (map fav_key (Favorite db)) \<and>
     distinct (map ver_id (ComponentVersion db)) \<and>
     distinct (map usr_id (User db)) \<and>
     distinct (map usr_email (User db))"

section \<open>The seed script (prisma/seed.ts)\<close>

subsection \<open>The catalog\<close>

text \<open>
  An entry of \<^verbatim>\<open>componentRegistry\<close>, with the fields the READMEs list for it. The script
  reads \<^verbatim>\<open>comp.dependencies || []\<close>, so that field may be missing: reading a missing
  property gives \<^verbatim>\<open>undefined\<close>, and the value of the field is \<^verbatim>\<open>undefined\<close>,
  \<^verbatim>\<open>null\<close> or an array of strings. The entry's own createdAt and updatedAt are ISO
  strings; the script does not read them.
\<close>

datatype js_string_array = Undefined | Null | Array "string list"

record ComponentMetadata =
  comp_id :: string
  comp_name :: string
  comp_description :: string
  comp_category :: string
  comp_tags :: "string list"
  comp_filePath :: string
  comp_componentPath :: string
  comp_code :: string
  comp_dependencies :: js_string_array
  comp_responsive :: bool
  comp_darkMode :: bool
  comp_createdAt :: string
  comp_updatedAt :: string

text \<open>
  JavaScript's truthiness on these values: \<^verbatim>\<open>undefined\<close> and \<^verbatim>\<open>null\<close> are falsy, every
  array is truthy, the empty one too. \<^verbatim>\<open>a || b\<close> is \<open>a\<close> when \<open>a\<close> is truthy and \<open>b\<close>
  otherwise.
\<close>

fun truthy :: "js_string_array \<Rightarrow> bool" where
  "truthy Undefined = False"
| "truthy Null = False"
| "truthy (Array xs) = True"

definition logical_or :: "js_string_array \<Rightarrow> js_string_array \<Rightarrow> js_string_array" where
  "logical_or a b = (if truthy a then a else b)"

subsection \<open>The client's queries\<close>

text \<open>
  The argument of \<^verbatim>\<open>prisma.component.create({ data })\<close>. The columns with a default in
  the schema (responsive, darkMode, views, copies, createdAt) and the one the client
  maintains (updatedAt) may be left out: \<open>None\<close>. A list column takes an array or is
  left out (\<^verbatim>\<open>undefined\<close>); the client refuses \<^verbatim>\<open>null\<close> there, since the lists
  of the model are not optional. The id is generated by the client when it is left out;
  the seed script always gives it, and the generator is not part of this development.
\<close>

record ComponentCreateInput =
  data_id :: string
  data_name :: string
  data_description :: string
  data_category :: string
  data_tags :: js_string_array
  data_filePath :: string
  data_componentPath :: string
  data_code :: string
  data_dependencies :: js_string_array
  data_responsive :: "bool option"
  data_darkMode :: "bool option"
  data_views :: "int option"
  data_copies :: "int option"
  data_createdAt :: "timestamp option"
  data_updatedAt :: "timestamp option"

text \<open>
  What a run of the script does not decide: the time at which its \<open>k\<close>-th query reaches
  the database, and whether that query finds the database unreachable (connection
  refused or lost, a timeout). The deletion is query 0, the insertions are queries
  1, 2, ...
\<close>

record world =
  clock :: "nat \<Rightarrow> timestamp"
  outage :: "nat \<Rightarrow> bool"

definition list_column :: "js_string_array \<Rightarrow> string list option" where
  "list_column v = (case v of Array xs \<Rightarrow> Some xs | _ \<Rightarrow> None)"

text \<open>
  The row that an insertion at time \<open>now\<close> stores: a column left out takes the
  \<^verbatim>\<open>DEFAULT\<close> of the schema (\<^verbatim>\<open>true\<close>, \<^verbatim>\<open>true\<close>, \<^verbatim>\<open>0\<close>, \<^verbatim>\<open>0\<close>, \<^verbatim>\<open>CURRENT_TIMESTAMP\<close>), a list
  column left out has no default and is NULL, and updatedAt is the time of the write.
\<close>

definition stored_row :: "timestamp \<Rightarrow> ComponentCreateInput \<Rightarrow> component_row" where
  "stored_row now d =
     \<lparr>cmp_id = data_id d,
      cmp_name = data_name d,
      cmp_description = data_description d,
      cmp_category = data_category d,
      cmp_tags = list_column (data_tags d),
      cmp_filePath = data_filePath d,
      cmp_componentPath = data_componentPath d,
      cmp_code = data_code d,
      cmp_dependencies = list_column (data_dependencies d),
      cmp_responsive = (case data_responsive d of None \<Rightarrow> True | Some b \<Rightarrow> b),
      cmp_darkMode = (case data_darkMode d of None \<Rightarrow> True | Some b \<Rightarrow> b),
      cmp_views = (case data_views d of None \<Rightarrow> 0 | Some n \<Rightarrow> n),
      cmp_copies = (case data_copies d of None \<Rightarrow> 0 | Some n \<Rightarrow> n),
      cmp_createdAt = (case data_createdAt d of None \<Rightarrow> now | Some t \<Rightarrow> t),
      cmp_updatedAt = (case data_updatedAt d of None \<Rightarrow> now | Some t \<Rightarrow> t)\<rparr>"

text \<open>
  \<^verbatim>\<open>await prisma.component.create({ data })\<close> as query \<open>k\<close> of the run: the promise is
  rejected (\<open>Some e\<close>) when the client refuses the argument, the database is unreachable
  or the database refuses the row.
\<close>

definition component_create ::
  "world \<Rightarrow> nat \<Rightarrow> ComponentCreateInput \<Rightarrow> database \<Rightarrow> prisma_error option \<times> database" where
  "component_create w k d db =
     (if data_tags d = Null then (Some (ValidationError ''tags''), db)
      else if data_dependencies d = Null then (Some (ValidationError ''dependencies''), db)
      else if outage w k then (Some Unreachable, db)
      else exec (InsertComponent (stored_row (clock w k) d)) db)"

text \<open>\<^verbatim>\<open>await prisma.component.deleteMany({})\<close>: the empty filter selects every row.\<close>

definition component_deleteMany ::
  "world \<Rightarrow> nat \<Rightarrow> database \<Rightarrow> prisma_error option \<times> database" where
  "component_deleteMany w k db =
     (if outage w k then (Some Unreachable, db)
      else exec (DeleteComponents (\<lambda>r. True)) db)"

subsection \<open>main\<close>

text \<open>The object literal of lines 18 to 30: views, copies and the timestamps are not in it.\<close>

definition seed_data :: "ComponentMetadata \<Rightarrow> ComponentCreateInput" where
  "seed_data entry =
     \<lparr>data_id = comp_id entry,
      data_name = comp_name entry,
      data_description = comp_description entry,
      data_category = comp_category entry,
      data_tags = Array (comp_tags entry),
      data_filePath = comp_filePath entry,
      data_componentPath = comp_componentPath entry,
      data_code = comp_code entry,
      data_dependencies = logical_or (comp_dependencies entry) (Array []),
      data_responsive = Some (comp_responsive entry),
      data_darkMode = Some (comp_darkMode entry),
      data_views = None,
      data_copies = None,
      data_createdAt = None,
      data_updatedAt = None\<rparr>"

text \<open>
  The \<^verbatim>\<open>for (const comp of componentRegistry)\<close> loop, from query \<open>k\<close> on. An awaited
  promise that is rejected throws: the loop stops there, and the rows written so far
  stay, since no transaction encloses them.
\<close>

fun seed_loop ::
  "world \<Rightarrow> nat \<Rightarrow> ComponentMetadata list \<Rightarrow> database \<Rightarrow> prisma_error option \<times> database" where
  "seed_loop w k [] db = (None, db)"
| "seed_loop w k (entry # rest) db =
     (case component_create w k (seed_data entry) db of
        (Some e, db') \<Rightarrow> (Some e, db')
      | (None, db') \<Rightarrow> seed_loop w (Suc k) rest db')"

text \<open>
  \<^verbatim>\<open>main()\<close>: the promise it returns is fulfilled (\<open>None\<close>) or rejected with the error of
  the first query that failed; the database is what the queries made of it.
\<close>

definition main ::
  "world \<Rightarrow> ComponentMetadata list \<Rightarrow> database \<Rightarrow> prisma_error option \<times> database" where
  "main w componentRegistry db =
     (case component_deleteMany w 0 db of
        (Some e, db') \<Rightarrow> (Some e, db')
      | (None, db') \<Rightarrow> seed_loop w 1 componentRegistry db')"

text \<open>
  The row that query \<open>k\<close> of a run writes for an entry, and the rows that the queries
  from \<open>k\<close> on write for a list of entries, one query each.
\<close>

definition seeded_row :: "world \<Rightarrow> nat \<Rightarrow> ComponentMetadata \<Rightarrow> component_row" where
  "seeded_row w k entry = stored_row (clock w k) (seed_data entry)"

fun seeded_rows :: "world \<Rightarrow> nat \<Rightarrow> ComponentMetadata list \<Rightarrow> component_row list" where
  "seeded_rows w k [] = []"
| "seeded_rows w k (entry # rest) = seeded_row w k entry # seeded_rows w (Suc k) rest"

text \<open>
  A row without its two timestamps: the columns whose values do not depend on when
  the row was written.
\<close>

definition catalog_columns :: "component_row \<Rightarrow> component_row" where
  "catalog_columns r = r\<lparr>cmp_createdAt := 0, cmp_updatedAt := 0\<rparr>"

subsection \<open>The promise chain around main\<close>

text \<open>
  The process as the chain of lines 38 to 45 sees it: its exit status once it has
  exited, what \<^verbatim>\<open>console.error\<close> has written, and how often \<^verbatim>\<open>prisma.$disconnect()\<close> has
  been called.
\<close>

record process =
  exit_status :: "nat option"
  errors_logged :: "prisma_error list"
  disconnect_calls :: nat

datatype promise = Fulfilled | Rejected prisma_error | Pending

definition console_error :: "prisma_error \<Rightarrow> process \<Rightarrow> process" where
  "console_error e p = p\<lparr>errors_logged := errors_logged p @ [e]\<rparr>"

text \<open>
  \<^verbatim>\<open>process.exit(code)\<close> ends the process at once: the call does not return, and no
  callback that is still waiting runs.
\<close>

definition process_exit :: "nat \<Rightarrow> process \<Rightarrow> process" where
  "process_exit code p = p\<lparr>exit_status := Some code\<rparr>"

definition prisma_disconnect :: "process \<Rightarrow> process" where
  "prisma_disconnect p = p\<lparr>disconnect_calls := Suc (disconnect_calls p)\<rparr>"

text \<open>
  \<^verbatim>\<open>promise.catch(handler)\<close>: a fulfilled promise passes through; on a rejected one the
  handler runs, and the new promise is fulfilled when the handler returns. A handler
  that ends the process never returns, so the new promise stays pending.
\<close>

definition promise_catch ::
  "(prisma_error \<Rightarrow> process \<Rightarrow> process) \<Rightarrow> promise \<times> process \<Rightarrow> promise \<times> process" where
  "promise_catch handler s =
     (case s of
        (Rejected e, p) \<Rightarrow>
          (let p' = handler e p in
           if exit_status p' = None then (Fulfilled, p') else (Pending, p'))
      | (settled, p) \<Rightarrow> (settled, p))"

text \<open>
  \<^verbatim>\<open>promise.finally(callback)\<close>: the callback runs once the promise is settled, either
  way, and the outcome is passed on. It does not run while the promise is pending.
\<close>

definition promise_finally ::
  "(process \<Rightarrow> process) \<Rightarrow> promise \<times> process \<Rightarrow> promise \<times> process" where
  "promise_finally callback s =
     (case s of
        (Pending, p) \<Rightarrow> (Pending, p)
      | (settled, p) \<Rightarrow> (settled, callback p))"

text \<open>
  A process that has nothing left to do exits by itself: with status 1 when the last
  promise of the chain is rejected and nothing handles it, with status 0 otherwise.
\<close>

definition drain :: "promise \<times> process \<Rightarrow> process" where
  "drain s =
     (case s of
        (settled, p) \<Rightarrow>
          (case exit_status p of
             Some c \<Rightarrow> p
           | None \<Rightarrow>
               (case settled of
                  Rejected e \<Rightarrow> p\<lparr>exit_status := Some 1\<rparr>
                | _ \<Rightarrow> p\<lparr>exit_status := Some 0\<rparr>)))"

definition launched :: process where
  "launched = \<lparr>exit_status = None, errors_logged = [], disconnect_calls = 0\<rparr>"

text \<open>
  The script from line 38 on:
  \<^verbatim>\<open>main().catch((e) => { console.error(..., e); process.exit(1); })
        .finally(async () => { await prisma.$disconnect(); })\<close>.
  It returns the process at its end and the database it leaves.
\<close>

definition seed_script ::
  "world \<Rightarrow> ComponentMetadata list \<Rightarrow> database \<Rightarrow> process \<times> database" where
  "seed_script w componentRegistry db =
     (let (outcome, db') = main w componentRegistry db;
          settled = (case outcome of None \<Rightarrow> Fulfilled | Some e \<Rightarrow> Rejected e);
          chain = promise_finally prisma_disconnect
                    (promise_catch (\<lambda>e p. process_exit 1 (console_error e p))
                       (settled, launched))
      in (drain chain, db'))"

section \<open>The client singleton (src/lib/prisma.ts)\<close>

text \<open>
  A client instance is known by the order of its construction. The JavaScript realm
  holds \<^verbatim>\<open>globalThis.prisma\<close> (\<open>None\<close> for \<^verbatim>\<open>undefined\<close>) and has constructed a number of
  clients so far; \<^verbatim>\<open>new PrismaClient()\<close> makes the next one.
\<close>

type_synonym client = nat

record realm =
  global_prisma :: "client option"
  constructed :: nat

definition new_PrismaClient :: "realm \<Rightarrow> client \<times> realm" where
  "new_PrismaClient g = (constructed g, g\<lparr>constructed := Suc (constructed g)\<rparr>)"

text \<open>
  One evaluation of the module: \<^verbatim>\<open>globalForPrisma.prisma ?? new PrismaClient()\<close>
  constructs a client only when the global is undefined, and the global is set unless
  \<^verbatim>\<open>process.env.NODE_ENV\<close> (a string, or \<open>None\<close> when the variable is not set) is
  \<^verbatim>\<open>'production'\<close>. The result is the exported \<^verbatim>\<open>prisma\<close> and the realm afterwards.
\<close>

definition load_module :: "string option \<Rightarrow> realm \<Rightarrow> client \<times> realm" where
  "load_module node_env g =
     (let (prisma, g') = (case global_prisma g of
                            Some c \<Rightarrow> (c, g)
                          | None \<Rightarrow> new_PrismaClient g)
      in if node_env \<noteq> Some ''production''
         then (prisma, g'\<lparr>global_prisma := Some prisma\<rparr>)
         else (prisma, g'))"

text \<open>
  The module evaluated again and again (a code reload evaluates it afresh): the
  clients it exports, in order, and the realm at the end.
\<close>

fun reloads :: "string option \<Rightarrow> nat \<Rightarrow> realm \<Rightarrow> client list \<times> realm" where
  "reloads node_env 0 g = ([], g)"
| "reloads node_env (Suc n) g =
     (let (c, g') = load_module node_env g;
          (cs, g'') = reloads node_env n g'
      in (c # cs, g''))"

section \<open>Sample data\<close>

text \<open>
  Two entries in the shape the READMEs give, a world without outages whose clock starts
  at a given time, and a database that has been in use: it holds an old row under the
  id of the first entry, with a favorite and a version that reference it, and a user.
\<close>

definition glow_button :: ComponentMetadata where
  "glow_button =
     \<lparr>comp_id = ''glow-button-1'',
      comp_name = ''Glow Button'',
      comp_description = ''Button with animated glow effect'',
      comp_category = ''button'',
      comp_tags = [''button'', ''glow'', ''animation''],
      comp_filePath = ''/components/demo/buttons/GlowButton.tsx'',
      comp_componentPath = ''@/components/demo/buttons/GlowButton'',
      comp_code = ''export default function GlowButton() {}'',
      comp_dependencies = Undefined,
      comp_responsive = True,
      comp_darkMode = False,
      comp_createdAt = ''2024-01-01'',
      comp_updatedAt = ''2024-01-01''\<rparr>"

definition new_button :: ComponentMetadata where
  "new_button =
     \<lparr>comp_id = ''new-button-1'',
      comp_name = ''New Button'',
      comp_description = ''A simple blue button'',
      comp_category = ''button'',
      comp_tags = [''button'', ''simple'', ''blue''],
      comp_filePath = ''/components/demo/buttons/NewButton.tsx'',
      comp_componentPath = ''@/components/demo/buttons/NewButton'',
      comp_code = ''export default function NewButton() {}'',
      comp_dependencies = Array [''lucide-react''],
      comp_responsive = True,
      comp_darkMode = True,
      comp_createdAt = ''2024-01-01'',
      comp_updatedAt = ''2024-01-01''\<rparr>"

definition steady :: "timestamp \<Rightarrow> world" where
  "steady t = \<lparr>clock = (\<lambda>k. t + k), outage = (\<lambda>k. False)\<rparr>"

definition used_db :: database where
  "used_db =
     \<lparr>Component =
        [\<lparr>cmp_id = ''glow-button-1'', cmp_name = ''Old Glow'', cmp_description = ''stale'',
          cmp_category = ''button'', cmp_tags = None, cmp_filePath = ''/old'',
          cmp_componentPath = ''@/old'', cmp_code = ''old'', cmp_dependencies = None,
          cmp_responsive = False, cmp_darkMode = False, cmp_views = 7, cmp_copies = 3,
          cmp_createdAt = 10, cmp_updatedAt = 20\<rparr>],
      Favorite =
        [\<lparr>fav_id = ''f1'', fav_userId = ''u1'', fav_componentId = ''glow-button-1'',
          fav_createdAt = 30\<rparr>],
      ComponentVersion =
        [\<lparr>ver_id = ''v1'', ver_componentId = ''glow-button-1'', ver_version = ''1.0.0'',
          ver_code = ''old'', ver_changelog = None, ver_createdAt = 40\<rparr>],
      User =
        [\<lparr>usr_id = ''u1'', usr_email = ''a@example.org'', usr_name = None, usr_role = ''user'',
          usr_createdAt = 5, usr_updatedAt = 5\<rparr>]\<rparr>"

text \<open>A favorite of the same user for the same component as the one in the used database.\<close>

definition second_favorite :: favorite_row where
  "second_favorite =
     \<lparr>fav_id = ''f2'', fav_userId = ''u1'', fav_componentId = ''glow-button-1'',
      fav_createdAt = 50\<rparr>"

section \<open>The constraints of the schema\<close>

text \<open>
  Replacing the row with a given id keeps a key unique when the new row's key is not
  that of another row.
\<close>

lemma distinct_replace:
  assumes "distinct (map ident xs)" and "distinct (map key xs)"
    and "key r \<notin> set (map key (filter (\<lambda>x. ident x \<noteq> i) xs))"
  shows "distinct (map key (map (\<lambda>x. if ident x = i then r else x) xs))"
  using assms
proof (induction xs)
  case Nil
  show ?case by simp
next
  case (Cons x xs)
  show ?case
  proof (cases "ident x = i")
    case True
    from Cons.prems(1) have "ident x \<notin> ident ` set xs" by simp
    with True have none: "\<forall>y \<in> set xs. ident y \<noteq> i" by blast
    then have same: "map (\<lambda>x. if ident x = i then r else x) xs = xs"
      by (simp add: map_idI)
    from none have "filter (\<lambda>x. ident x \<noteq> i) xs = xs" by simp
    with Cons.prems(3) True have "key r \<notin> set (map key xs)" by simp
    with Cons.prems(2) True same show ?thesis by simp
  next
    case False
    with Cons.prems have tail: "distinct (map key (map (\<lambda>x. if ident x = i then r else x) xs))"
      by (intro Cons.IH) auto
    from False Cons.prems(3) have "key r \<noteq> key x" by auto
    moreover from Cons.prems(2) have "key x \<notin> key ` set xs" by simp
    ultimately have "key x \<notin> set (map key (map (\<lambda>x. if ident x = i then r else x) xs))"
      by (auto split: if_splits)
    with tail False show ?thesis by simp
  qed
qed

lemma replaced_ids:
  assumes "i \<in> set (map ident xs)"
  shows "set (map ident (map (\<lambda>x. if ident x = i then r else x) xs))
    = insert (ident r) (set (map ident (filter (\<lambda>x. ident x \<noteq> i) xs)))"
  using assms by (auto split: if_splits)

lemma keys_unique_migrated: "keys_unique migrated"
  by (simp add: keys_unique_def migrated_def)

lemma references_hold_migrated: "references_hold migrated"
  by (simp add: references_hold_def migrated_def)

lemma keys_unique_exec:
  assumes "keys_unique db"
  shows "keys_unique (snd (exec s db))"
proof (cases s)
  case (InsertComponent r)
  with assms show ?thesis by (simp add: keys_unique_def insert_component_def)
next
  case (DeleteComponents cond)
  with assms show ?thesis
    by (simp add: keys_unique_def delete_components_def distinct_map_filter)
next
  case (InsertFavorite f)
  with assms show ?thesis by (simp add: keys_unique_def insert_favorite_def)
next
  case (DeleteFavorites cond)
  with assms show ?thesis
    by (simp add: keys_unique_def delete_favorites_def distinct_map_filter)
next
  case (InsertVersion v)
  with assms show ?thesis by (simp add: keys_unique_def insert_version_def)
next
  case (DeleteVersions cond)
  with assms show ?thesis
    by (simp add: keys_unique_def delete_versions_def distinct_map_filter)
next
  case (InsertUser u)
  with assms show ?thesis by (simp add: keys_unique_def insert_user_def)
next
  case (DeleteUsers cond)
  with assms show ?thesis
    by (simp add: keys_unique_def delete_users_def distinct_map_filter)
next
  case (UpdateComponent cid r)
  have fav: "map fav_id (map (\<lambda>f. if fav_componentId f = cid
      then f\<lparr>fav_componentId := cmp_id r\<rparr> else f) fs) = map fav_id fs" for fs
    by (induction fs) simp_all
  have ver: "map ver_id (map (\<lambda>v. if ver_componentId v = cid
      then v\<lparr>ver_componentId := cmp_id r\<rparr> else v) vs) = map ver_id vs" for vs
    by (induction vs) simp_all
  from assms UpdateComponent show ?thesis
    by (simp add: keys_unique_def update_component_def Let_def fav ver distinct_replace
        del: map_map)
next
  case (UpdateFavorite fid f)
  with assms show ?thesis
    by (simp add: keys_unique_def update_favorite_def Let_def distinct_replace del: map_map)
next
  case (UpdateVersion vid v)
  with assms show ?thesis
    by (simp add: keys_unique_def update_version_def Let_def distinct_replace del: map_map)
next
  case (UpdateUser uid u)
  with assms show ?thesis
    by (simp add: keys_unique_def update_user_def Let_def distinct_replace del: map_map)
qed

lemma references_hold_exec:
  assumes "references_hold db"
  shows "references_hold (snd (exec s db))"
proof (cases s)
  case (InsertComponent r)
  with assms show ?thesis
    by (auto simp: references_hold_def insert_component_def list_all_iff)
next
  case (DeleteComponents cond)
  have kept: "x \<in> cmp_id ` {r \<in> set (Component db). \<not> cond r}"
    if "x \<in> cmp_id ` set (Component db)" "x \<notin> cmp_id ` {r \<in> set (Component db). cond r}"
    for x
    using that by blast
  from assms DeleteComponents show ?thesis
    by (auto simp: references_hold_def delete_components_def list_all_iff intro: kept)
next
  case (InsertFavorite f)
  with assms show ?thesis
    by (auto simp: references_hold_def insert_favorite_def list_all_iff)
next
  case (DeleteFavorites cond)
  with assms show ?thesis
    by (auto simp: references_hold_def delete_favorites_def list_all_iff)
next
  case (InsertVersion v)
  with assms show ?thesis
    by (auto simp: references_hold_def insert_version_def list_all_iff)
next
  case (DeleteVersions cond)
  with assms show ?thesis
    by (auto simp: references_hold_def delete_versions_def list_all_iff)
next
  case (InsertUser u)
  with assms show ?thesis
    by (auto simp: references_hold_def insert_user_def list_all_iff)
next
  case (DeleteUsers cond)
  with assms show ?thesis
    by (auto simp: references_hold_def delete_users_def list_all_iff)
next
  case (UpdateComponent cid r)
  show ?thesis
  proof (cases "fst (update_component cid r db) = None \<and> cid \<in> set (map cmp_id (Component db))")
    case False
    then have "snd (update_component cid r db) = db"
      by (auto simp: update_component_def Let_def)
    with assms UpdateComponent show ?thesis by simp
  next
    case True
    then have present: "cid \<in> set (map cmp_id (Component db))" by simp
    have ids: "c \<in> set (map cmp_id (map (\<lambda>x. if cmp_id x = cid then r else x) (Component db)))"
      if "c = cmp_id r \<or> (c \<noteq> cid \<and> c \<in> set (map cmp_id (Component db)))" for c
      using that unfolding replaced_ids [of cid cmp_id "Component db" r, OF present] by auto
    from True have after: "snd (update_component cid r db) =
        db\<lparr>Component := map (\<lambda>x. if cmp_id x = cid then r else x) (Component db),
           Favorite := map (\<lambda>f. if fav_componentId f = cid
                                 then f\<lparr>fav_componentId := cmp_id r\<rparr> else f) (Favorite db),
           ComponentVersion := map (\<lambda>v. if ver_componentId v = cid
                                 then v\<lparr>ver_componentId := cmp_id r\<rparr> else v)
                                 (ComponentVersion db)\<rparr>"
      by (auto simp: update_component_def Let_def split: if_splits)
    let ?new = "map (\<lambda>x. if cmp_id x = cid then r else x) (Component db)"
    have favs: "fav_componentId (if fav_componentId f = cid
        then f\<lparr>fav_componentId := cmp_id r\<rparr> else f) \<in> set (map cmp_id ?new)"
      if "f \<in> set (Favorite db)" for f
    proof (cases "fav_componentId f = cid")
      case True
      have "cmp_id r \<in> set (map cmp_id ?new)" by (rule ids) simp
      with True show ?thesis by simp
    next
      case False
      from that assms have "fav_componentId f \<in> set (map cmp_id (Component db))"
        by (simp add: references_hold_def list_all_iff)
      with False have "fav_componentId f \<in> set (map cmp_id ?new)" by (intro ids) simp
      with False show ?thesis by simp
    qed
    have vers: "ver_componentId (if ver_componentId v = cid
        then v\<lparr>ver_componentId := cmp_id r\<rparr> else v) \<in> set (map cmp_id ?new)"
      if "v \<in> set (ComponentVersion db)" for v
    proof (cases "ver_componentId v = cid")
      case True
      have "cmp_id r \<in> set (map cmp_id ?new)" by (rule ids) simp
      with True show ?thesis by simp
    next
      case False
      from that assms have "ver_componentId v \<in> set (map cmp_id (Component db))"
        by (simp add: references_hold_def list_all_iff)
      with False have "ver_componentId v \<in> set (map cmp_id ?new)" by (intro ids) simp
      with False show ?thesis by simp
    qed
    have "list_all (\<lambda>f. fav_componentId f \<in> set (map cmp_id ?new))
        (map (\<lambda>f. if fav_componentId f = cid
                 then f\<lparr>fav_componentId := cmp_id r\<rparr> else f) (Favorite db))"
      unfolding list_all_iff
    proof
      fix x
      assume "x \<in> set (map (\<lambda>f. if fav_componentId f = cid
                 then f\<lparr>fav_componentId := cmp_id r\<rparr> else f) (Favorite db))"
      then have "x \<in> (\<lambda>f. if fav_componentId f = cid
                 then f\<lparr>fav_componentId := cmp_id r\<rparr> else f) ` set (Favorite db)"
        by (simp only: set_map)
      then obtain f
        where "x = (if fav_componentId f = cid then f\<lparr>fav_componentId := cmp_id r\<rparr> else f)"
          and "f \<in> set (Favorite db)"
        by (rule imageE)
      with favs [of f] show "fav_componentId x \<in> set (map cmp_id ?new)" by simp
    qed
    moreover have "list_all (\<lambda>v. ver_componentId v \<in> set (map cmp_id ?new))
        (map (\<lambda>v. if ver_componentId v = cid
                 then v\<lparr>ver_componentId := cmp_id r\<rparr> else v) (ComponentVersion db))"
      unfolding list_all_iff
    proof
      fix x
      assume "x \<in> set (map (\<lambda>v. if ver_componentId v = cid
                 then v\<lparr>ver_componentId := cmp_id r\<rparr> else v) (ComponentVersion db))"
      then have "x \<in> (\<lambda>v. if ver_componentId v = cid
                 then v\<lparr>ver_componentId := cmp_id r\<rparr> else v) ` set (ComponentVersion db)"
        by (simp only: set_map)
      then obtain v
        where "x = (if ver_componentId v = cid then v\<lparr>ver_componentId := cmp_id r\<rparr> else v)"
          and "v \<in> set (ComponentVersion db)"
        by (rule imageE)
      with vers [of v] show "ver_componentId x \<in> set (map cmp_id ?new)" by simp
    qed
    ultimately show ?thesis
      using UpdateComponent by (simp add: after references_hold_def del: set_map map_map)
  qed
next
  case (UpdateFavorite fid f)
  with assms show ?thesis
    by (auto simp: references_hold_def update_favorite_def Let_def list_all_iff)
next
  case (UpdateVersion vid v)
  with assms show ?thesis
    by (auto simp: references_hold_def update_version_def Let_def list_all_iff)
next
  case (UpdateUser uid u)
  with assms show ?thesis
    by (auto simp: references_hold_def update_user_def Let_def list_all_iff)
qed

lemma reachable_keys_unique: "reachable db \<Longrightarrow> keys_unique db"
  by (induction rule: reachable.induct) (simp_all add: keys_unique_migrated keys_unique_exec)

lemma reachable_references_hold: "reachable db \<Longrightarrow> references_hold db"
  by (induction rule: reachable.induct)
    (simp_all add: references_hold_migrated references_hold_exec)

lemma exec_failure_unchanged: "fst (exec s db) \<noteq> None \<Longrightarrow> snd (exec s db) = db"
  by (cases s)
    (simp_all add: insert_component_def insert_favorite_def insert_version_def insert_user_def
      update_component_def update_favorite_def update_version_def update_user_def Let_def
      split: if_splits)

lemma used_db_reachable: "reachable used_db"
proof -
  let ?c = "hd (Component used_db)" and ?f = "hd (Favorite used_db)"
    and ?v = "hd (ComponentVersion used_db)" and ?u = "hd (User used_db)"
  let ?built = "snd (exec (InsertUser ?u) (snd (exec (InsertVersion ?v)
      (snd (exec (InsertFavorite ?f) (snd (exec (InsertComponent ?c) migrated)))))))"
  have "used_db = ?built"
    by (simp add: used_db_def migrated_def insert_component_def insert_favorite_def
        insert_version_def insert_user_def fav_key_def)
  moreover have "reachable ?built"
    by (intro reachable.step reachable.start)
  ultimately show ?thesis by simp
qed

text \<open>
  C5. In every state that insertions, deletions and updates of rows (the queries of the
  seed script among them) reach from the migrated database, no two rows of the Favorite
  table have the same (userId, componentId) pair; and inserting
  a favorite whose pair is already in the table is rejected with a unique violation and
  changes nothing. The violation named is that of the index on the pair, unless the id
  of the new row is taken too: then the primary key, created first, is named.
\<close>

theorem favorite_pair_unique:
  assumes "reachable db"
  shows "distinct (map fav_key (Favorite db)) \<and>
    (fav_key f \<in> set (map fav_key (Favorite db)) \<longrightarrow>
       fst (exec (InsertFavorite f) db) =
         Some (UniqueViolation
           (if fav_id f \<in> set (map fav_id (Favorite db)) then ''Favorite_pkey''
            else ''Favorite_userId_componentId_key'')) \<and>
       snd (exec (InsertFavorite f) db) = db)"
proof -
  from assms have "keys_unique db" by (rule reachable_keys_unique)
  then have "distinct (map fav_key (Favorite db))" by (simp add: keys_unique_def)
  then show ?thesis by (simp add: insert_favorite_def)
qed


theorem favorite_pair_unique_witness:
  "reachable used_db \<and>
   distinct (map fav_key (Favorite used_db)) \<and>
   fav_key second_favorite \<in> set (map fav_key (Favorite used_db)) \<and>
   fst (exec (InsertFavorite second_favorite) used_db) =
     Some (UniqueViolation ''Favorite_userId_componentId_key'') \<and>
   snd (exec (InsertFavorite second_favorite) used_db) = used_db"
proof -
  have key: "fav_key second_favorite \<in> set (map fav_key (Favorite used_db))"
    by (simp add: second_favorite_def used_db_def fav_key_def)
  have fresh: "fav_id second_favorite \<notin> set (map fav_id (Favorite used_db))"
    by (simp add: second_favorite_def used_db_def)
  from favorite_pair_unique [OF used_db_reachable, of second_favorite] key fresh
  show ?thesis using used_db_reachable by simp
qed

text \<open>
  C6. A deletion from the Component table succeeds, and for every row it deletes, no
  favorite and no version with that row's id as componentId is left afterwards.
\<close>

theorem delete_component_cascades:
  assumes "r \<in> set (Component db)" and "cond r"
  shows "fst (exec (DeleteComponents cond) db) = None \<and>
    r \<notin> set (Component (snd (exec (DeleteComponents cond) db))) \<and>
    filter (\<lambda>f. fav_componentId f = cmp_id r)
      (Favorite (snd (exec (DeleteComponents cond) db))) = [] \<and>
    filter (\<lambda>v. ver_componentId v = cmp_id r)
      (ComponentVersion (snd (exec (DeleteComponents cond) db))) = []"
proof -
  from assms have gone: "cmp_id r \<in> set (map cmp_id (filter cond (Component db)))"
    by simp
  have "filter (\<lambda>f. fav_componentId f = cmp_id r)
      (Favorite (snd (exec (DeleteComponents cond) db))) = []"
    using gone by (auto simp: delete_components_def filter_empty_conv)
  moreover have "filter (\<lambda>v. ver_componentId v = cmp_id r)
      (ComponentVersion (snd (exec (DeleteComponents cond) db))) = []"
    using gone by (auto simp: delete_components_def filter_empty_conv)
  moreover have "r \<notin> set (Component (snd (exec (DeleteComponents cond) db)))"
    using assms by (simp add: delete_components_def)
  ultimately show ?thesis by simp
qed

theorem delete_component_cascades_witness:
  "hd (Component used_db) \<in> set (Component used_db) \<and>
   cmp_id (hd (Component used_db)) = ''glow-button-1'' \<and>
   Favorite used_db \<noteq> [] \<and> ComponentVersion used_db \<noteq> [] \<and>
   Component (snd (exec (DeleteComponents (\<lambda>r. cmp_id r = ''glow-button-1'')) used_db)) = [] \<and>
   filter (\<lambda>f. fav_componentId f = ''glow-button-1'')
     (Favorite (snd (exec (DeleteComponents (\<lambda>r. cmp_id r = ''glow-button-1'')) used_db))) = [] \<and>
   filter (\<lambda>v. ver_componentId v = ''glow-button-1'')
     (ComponentVersion (snd (exec (DeleteComponents (\<lambda>r. cmp_id r = ''glow-button-1'')) used_db)))
     = []"
proof -
  have mem: "hd (Component used_db) \<in> set (Component used_db)"
    and cid: "cmp_id (hd (Component used_db)) = ''glow-button-1''"
    by (simp_all add: used_db_def)
  have rest: "Favorite used_db \<noteq> []" "ComponentVersion used_db \<noteq> []"
    "Component (snd (exec (DeleteComponents (\<lambda>r. cmp_id r = ''glow-button-1'')) used_db)) = []"
    by (simp_all add: used_db_def delete_components_def)
  from delete_component_cascades [OF mem, of "\<lambda>r. cmp_id r = ''glow-button-1''"] cid mem rest
  show ?thesis by simp
qed

section \<open>The seed loop\<close>

lemma seed_data_not_null:
  "data_tags (seed_data entry) \<noteq> Null" "data_dependencies (seed_data entry) \<noteq> Null"
  by (cases "comp_dependencies entry"; simp add: seed_data_def logical_or_def)+

lemma component_create_seed_data:
  "component_create w k (seed_data entry) db =
     (if outage w k then (Some Unreachable, db)
      else if cmp_id (seeded_row w k entry) \<in> cmp_id ` set (Component db)
      then (Some (UniqueViolation ''Component_pkey''), db)
      else (None, db\<lparr>Component := Component db @ [seeded_row w k entry]\<rparr>))"
  by (simp add: component_create_def seed_data_not_null insert_component_def seeded_row_def)

lemma seed_loop_frame:
  "Favorite (snd (seed_loop w k reg db)) = Favorite db \<and>
   ComponentVersion (snd (seed_loop w k reg db)) = ComponentVersion db \<and>
   User (snd (seed_loop w k reg db)) = User db"
proof (induction reg arbitrary: k db)
  case Nil
  show ?case by simp
next
  case (Cons entry rest)
  show ?case
    by (simp add: component_create_seed_data Cons.IH)
qed

lemma seed_loop_shape:
  "\<exists>n. n \<le> length reg \<and>
     Component (snd (seed_loop w k reg db)) = Component db @ seeded_rows w k (take n reg) \<and>
     (fst (seed_loop w k reg db) = None \<longleftrightarrow> n = length reg)"
proof (induction reg arbitrary: k db)
  case Nil
  show ?case by simp
next
  case (Cons entry rest)
  show ?case
  proof (cases "fst (component_create w k (seed_data entry) db)")
    case (Some e)
    then have "seed_loop w k (entry # rest) db = (Some e, db)"
      by (simp add: component_create_seed_data split: if_splits)
    then have "0 \<le> length (entry # rest) \<and>
       Component (snd (seed_loop w k (entry # rest) db)) =
         Component db @ seeded_rows w k (take 0 (entry # rest)) \<and>
       (fst (seed_loop w k (entry # rest) db) = None \<longleftrightarrow> 0 = length (entry # rest))"
      by simp
    then show ?thesis by (rule exI)
  next
    case None
    define db' where "db' = db\<lparr>Component := Component db @ [seeded_row w k entry]\<rparr>"
    from None have cc: "component_create w k (seed_data entry) db = (None, db')"
      by (simp add: component_create_seed_data db'_def split: if_splits)
    then have unf: "seed_loop w k (entry # rest) db = seed_loop w (Suc k) rest db'"
      by simp
    from Cons.IH[of "Suc k" db'] obtain n where n: "n \<le> length rest"
      "Component (snd (seed_loop w (Suc k) rest db')) = Component db' @ seeded_rows w (Suc k) (take n rest)"
      "fst (seed_loop w (Suc k) rest db') = None \<longleftrightarrow> n = length rest"
      by (elim exE conjE)
    have "Suc n \<le> length (entry # rest) \<and>
       Component (snd (seed_loop w k (entry # rest) db)) =
         Component db @ seeded_rows w k (take (Suc n) (entry # rest)) \<and>
       (fst (seed_loop w k (entry # rest) db) = None \<longleftrightarrow> Suc n = length (entry # rest))"
      using n unfolding unf by (simp add: db'_def)
    then show ?thesis by (rule exI)
  qed
qed


lemma length_seeded_rows: "length (seeded_rows w k es) = length es"
  by (induction es arbitrary: k) simp_all

lemma nth_seeded_rows: "i < length es \<Longrightarrow> seeded_rows w k es ! i = seeded_row w (k + i) (es ! i)"
proof (induction es arbitrary: k i)
  case Nil
  then show ?case by simp
next
  case (Cons e es)
  then show ?case by (cases i) simp_all
qed

lemma map_cmp_id_seeded_rows: "map cmp_id (seeded_rows w k es) = map comp_id es"
  by (induction es arbitrary: k) (simp_all add: seeded_row_def stored_row_def seed_data_def)

lemma delete_all_components:
  "delete_components (\<lambda>r. True) db =
     db\<lparr>Component := [],
        Favorite := filter (\<lambda>f. fav_componentId f \<notin> cmp_id ` set (Component db)) (Favorite db),
        ComponentVersion :=
          filter (\<lambda>v. ver_componentId v \<notin> cmp_id ` set (Component db)) (ComponentVersion db)\<rparr>"
  by (simp add: delete_components_def)

lemma main_unfold:
  "main w reg db =
     (if outage w 0 then (Some Unreachable, db)
      else seed_loop w 1 reg (delete_components (\<lambda>r. True) db))"
  by (simp add: main_def component_deleteMany_def)

lemma main_shape:
  assumes "\<not> outage w 0"
  shows "\<exists>n. n \<le> length reg \<and>
     Component (snd (main w reg db)) = seeded_rows w 1 (take n reg) \<and>
     (fst (main w reg db) = None \<longleftrightarrow> n = length reg)"
proof -
  let ?db0 = "delete_components (\<lambda>r. True) db"
  have "Component ?db0 = []" by (simp add: delete_all_components)
  with seed_loop_shape[of reg w 1 ?db0] assms show ?thesis
    by (simp add: main_unfold)
qed

lemma main_success_rows:
  assumes "fst (main w reg db) = None"
  shows "Component (snd (main w reg db)) = seeded_rows w 1 reg"
proof -
  from assms have no: "\<not> outage w 0" by (auto simp: main_unfold split: if_splits)
  from main_shape[OF no, of reg db] assms show ?thesis by auto
qed


lemma catalog_columns_seeded_rows:
  "map catalog_columns (seeded_rows w k es) = map catalog_columns (seeded_rows w' k' es)"
  by (induction es arbitrary: k k')
    (simp_all add: catalog_columns_def seeded_row_def stored_row_def seed_data_def)

lemma seed_loop_succeeds_iff:
  "fst (seed_loop w k reg db) = None \<longleftrightarrow>
     (\<forall>j < length reg. \<not> outage w (k + j)) \<and> distinct (map comp_id reg) \<and>
     set (map comp_id reg) \<inter> set (map cmp_id (Component db)) = {}"
proof (induction reg arbitrary: k db)
  case Nil
  show ?case by simp
next
  case (Cons entry rest)
  have cid: "cmp_id (seeded_row w k entry) = comp_id entry"
    by (simp add: seeded_row_def stored_row_def seed_data_def)
  have shift: "(\<forall>j < Suc (length rest). \<not> outage w (k + j)) \<longleftrightarrow>
      \<not> outage w k \<and> (\<forall>j < length rest. \<not> outage w (Suc k + j))"
    by (auto simp: less_Suc_eq_0_disj)
  show ?case
  proof (cases "outage w k \<or> comp_id entry \<in> cmp_id ` set (Component db)")
    case True
    then have "fst (seed_loop w k (entry # rest) db) \<noteq> None"
      by (auto simp: component_create_seed_data cid)
    with True show ?thesis using shift by auto
  next
    case False
    then have "seed_loop w k (entry # rest) db =
        seed_loop w (Suc k) rest (db\<lparr>Component := Component db @ [seeded_row w k entry]\<rparr>)"
      by (simp add: component_create_seed_data cid)
    then show ?thesis
      using False shift
        Cons.IH [of "Suc k" "db\<lparr>Component := Component db @ [seeded_row w k entry]\<rparr>"]
      by (auto simp: cid)
  qed
qed

lemma main_succeeds_iff:
  "fst (main w reg db) = None \<longleftrightarrow>
     (\<forall>k \<le> length reg. \<not> outage w k) \<and> distinct (map comp_id reg)"
proof -
  have "(\<forall>k \<le> length reg. \<not> outage w k) \<longleftrightarrow>
      \<not> outage w 0 \<and> (\<forall>j < length reg. \<not> outage w (1 + j))"
    by (metis Suc_le_eq le0 not0_implies_Suc plus_1_eq_Suc)
  then show ?thesis
    by (simp add: main_unfold seed_loop_succeeds_iff delete_all_components)
qed

lemma component_create_failure:
  "fst (component_create w k d db) = Some e \<Longrightarrow> snd (component_create w k d db) = db"
  by (simp add: component_create_def insert_component_def split: if_splits)

lemma seed_loop_failure:
  assumes "fst (seed_loop w k reg db) = Some e"
  shows "\<exists>n<length reg.
     fst (seed_loop w k (take n reg) db) = None \<and>
     fst (component_create w (k + n) (seed_data (reg ! n))
       (snd (seed_loop w k (take n reg) db))) = Some e \<and>
     snd (seed_loop w k reg db) = snd (seed_loop w k (take n reg) db)"
  using assms
proof (induction reg arbitrary: k db)
  case Nil
  then show ?case by simp
next
  case (Cons entry rest)
  show ?case
  proof (cases "fst (component_create w k (seed_data entry) db)")
    case (Some e')
    then have same: "snd (component_create w k (seed_data entry) db) = db"
      by (rule component_create_failure)
    with Some have run: "seed_loop w k (entry # rest) db = (Some e', db)"
      by (cases "component_create w k (seed_data entry) db") simp
    with Cons.prems have "e' = e" by simp
    with Some run have "0 < length (entry # rest) \<and>
       fst (seed_loop w k (take 0 (entry # rest)) db) = None \<and>
       fst (component_create w (k + 0) (seed_data ((entry # rest) ! 0))
         (snd (seed_loop w k (take 0 (entry # rest)) db))) = Some e \<and>
       snd (seed_loop w k (entry # rest) db) = snd (seed_loop w k (take 0 (entry # rest)) db)"
      by simp
    then show ?thesis by (rule exI)
  next
    case None
    define db' where "db' = snd (component_create w k (seed_data entry) db)"
    from None have cc: "component_create w k (seed_data entry) db = (None, db')"
      by (simp add: db'_def prod_eq_iff)
    then have unf: "seed_loop w k (entry # ys) db = seed_loop w (Suc k) ys db'" for ys
      by simp
    from Cons.prems have "fst (seed_loop w (Suc k) rest db') = Some e"
      by (simp only: unf)
    from Cons.IH [OF this] obtain n where n: "n < length rest"
      "fst (seed_loop w (Suc k) (take n rest) db') = None"
      "fst (component_create w (Suc k + n) (seed_data (rest ! n))
         (snd (seed_loop w (Suc k) (take n rest) db'))) = Some e"
      "snd (seed_loop w (Suc k) rest db') = snd (seed_loop w (Suc k) (take n rest) db')"
      by (elim exE conjE)
    have "Suc n < length (entry # rest) \<and>
       fst (seed_loop w k (take (Suc n) (entry # rest)) db) = None \<and>
       fst (component_create w (k + Suc n) (seed_data ((entry # rest) ! Suc n))
         (snd (seed_loop w k (take (Suc n) (entry # rest)) db))) = Some e \<and>
       snd (seed_loop w k (entry # rest) db)
         = snd (seed_loop w k (take (Suc n) (entry # rest)) db)"
      using n by (simp only: take_Suc_Cons unf nth_Cons_Suc add_Suc_right add_Suc) simp
    then show ?thesis by (rule exI)
  qed
qed

lemma seeded_rows_columns:
  assumes "r \<in> set (seeded_rows w k es)"
  shows "cmp_views r = 0 \<and> cmp_copies r = 0 \<and> cmp_dependencies r \<noteq> None"
  using assms
proof (induction es arbitrary: k)
  case Nil
  then show ?case by simp
next
  case (Cons entry rest)
  have "cmp_views (seeded_row w k entry) = 0 \<and> cmp_copies (seeded_row w k entry) = 0 \<and>
      cmp_dependencies (seeded_row w k entry) \<noteq> None"
    by (cases "comp_dependencies entry")
      (simp_all add: seeded_row_def stored_row_def seed_data_def list_column_def logical_or_def)
  with Cons show ?case by auto
qed

lemma snd_component_create:
  "snd (component_create w k d db) = db \<or>
   snd (component_create w k d db) = snd (exec (InsertComponent (stored_row (clock w k) d)) db)"
  by (simp add: component_create_def)

lemma reachable_seed_loop: "reachable db \<Longrightarrow> reachable (snd (seed_loop w k reg db))"
proof (induction reg arbitrary: k db)
  case Nil
  then show ?case by simp
next
  case (Cons entry rest)
  have "reachable (snd (component_create w k (seed_data entry) db))"
    using snd_component_create [of w k "seed_data entry" db] Cons.prems
      reachable.step [of db "InsertComponent (stored_row (clock w k) (seed_data entry))"]
    by auto
  then show ?case
    using Cons.IH [of "snd (component_create w k (seed_data entry) db)" "Suc k"]
    by (cases "component_create w k (seed_data entry) db") (auto split: option.splits)
qed

lemma reachable_main: "reachable db \<Longrightarrow> reachable (snd (main w reg db))"
proof -
  assume r: "reachable db"
  then have "reachable (snd (exec (DeleteComponents (\<lambda>r. True)) db))"
    by (rule reachable.step)
  then have "reachable (delete_components (\<lambda>r. True) db)" by simp
  with r show ?thesis by (simp add: main_unfold reachable_seed_loop)
qed

lemma main_other_tables:
  "User (snd (main w reg db)) = User db"
  "\<not> outage w 0 \<Longrightarrow> Favorite (snd (main w reg db)) =
     filter (\<lambda>f. fav_componentId f \<notin> cmp_id ` set (Component db)) (Favorite db)"
  "\<not> outage w 0 \<Longrightarrow> ComponentVersion (snd (main w reg db)) =
     filter (\<lambda>v. ver_componentId v \<notin> cmp_id ` set (Component db)) (ComponentVersion db)"
  by (simp_all add: main_unfold seed_loop_frame delete_all_components)

text \<open>Three runs on the sample data: a good one, a second good one after it, and one whose
  catalog repeats an id.\<close>

lemma main_steady_example: "fst (main (steady 1000) [glow_button, new_button] used_db) = None"
  by code_simp

lemma main_twice_example:
  "fst (main (steady 2000) [glow_button, new_button]
     (snd (main (steady 1000) [glow_button, new_button] used_db))) = None"
  by (simp add: main_succeeds_iff steady_def glow_button_def new_button_def)

lemma main_duplicate_example:
  "fst (main (steady 1000) [glow_button, new_button, glow_button] used_db)
     = Some (UniqueViolation ''Component_pkey'')"
  by code_simp

section \<open>Properties of the seed script\<close>

text \<open>
  C1. When the run succeeds (the promise of \<open>main\<close> is fulfilled), the Component table
  holds exactly one row per entry of the catalog, in the catalog's order and whatever
  the table held before, and the row of an entry carries the entry's id, name,
  description, category, tags, filePath, componentPath, code, responsive and darkMode.
\<close>

theorem seed_populates_catalog:
  assumes "fst (main w componentRegistry db) = None"
  shows "length (Component (snd (main w componentRegistry db))) = length componentRegistry \<and>
    (\<forall>i < length componentRegistry.
       cmp_id (Component (snd (main w componentRegistry db)) ! i) = comp_id (componentRegistry ! i) \<and>
       cmp_name (Component (snd (main w componentRegistry db)) ! i) = comp_name (componentRegistry ! i) \<and>
       cmp_description (Component (snd (main w componentRegistry db)) ! i)
         = comp_description (componentRegistry ! i) \<and>
       cmp_category (Component (snd (main w componentRegistry db)) ! i)
         = comp_category (componentRegistry ! i) \<and>
       cmp_tags (Component (snd (main w componentRegistry db)) ! i)
         = Some (comp_tags (componentRegistry ! i)) \<and>
       cmp_filePath (Component (snd (main w componentRegistry db)) ! i)
         = comp_filePath (componentRegistry ! i) \<and>
       cmp_componentPath (Component (snd (main w componentRegistry db)) ! i)
         = comp_componentPath (componentRegistry ! i) \<and>
       cmp_code (Component (snd (main w componentRegistry db)) ! i) = comp_code (componentRegistry ! i) \<and>
       cmp_responsive (Component (snd (main w componentRegistry db)) ! i)
         = comp_responsive (componentRegistry ! i) \<and>
       cmp_darkMode (Component (snd (main w componentRegistry db)) ! i)
         = comp_darkMode (componentRegistry ! i))"
proof -
  have rows: "Component (snd (main w componentRegistry db)) = seeded_rows w 1 componentRegistry"
    using assms by (rule main_success_rows)
  show ?thesis
    unfolding rows
    by (simp add: length_seeded_rows nth_seeded_rows seeded_row_def stored_row_def seed_data_def
        list_column_def)
qed

theorem seed_populates_catalog_witness:
  "fst (main (steady 1000) [glow_button, new_button] used_db) = None \<and>
   length (Component (snd (main (steady 1000) [glow_button, new_button] used_db))) = 2 \<and>
   cmp_id (Component (snd (main (steady 1000) [glow_button, new_button] used_db)) ! 1)
     = ''new-button-1'' \<and>
   cmp_tags (Component (snd (main (steady 1000) [glow_button, new_button] used_db)) ! 0)
     = Some [''button'', ''glow'', ''animation'']"
  using seed_populates_catalog [OF main_steady_example] main_steady_example
  by (simp add: glow_button_def new_button_def)

text \<open>
  C2, as the code has it. The timestamps of a row are assigned when the row is written,
  so a second run does not leave the table of the first: every row is deleted and
  written again, with the createdAt and updatedAt of the second run. What holds is
  this. Two runs in a row, both successful, leave a Component table that agrees with
  the table after the first run in every column but createdAt and updatedAt. It is the
  very table that one run under the conditions of the second leaves, whatever the
  table held before, so the two timestamps are those of the latest run. It holds one
  row per entry of the catalog, and no id twice.
\<close>

theorem seed_idempotent:
  assumes first: "fst (main w1 componentRegistry db) = None"
    and second: "fst (main w2 componentRegistry (snd (main w1 componentRegistry db))) = None"
  shows "Component (snd (main w2 componentRegistry (snd (main w1 componentRegistry db))))
      = Component (snd (main w2 componentRegistry db)) \<and>
    map catalog_columns
        (Component (snd (main w2 componentRegistry (snd (main w1 componentRegistry db)))))
      = map catalog_columns (Component (snd (main w1 componentRegistry db))) \<and>
    length (Component (snd (main w2 componentRegistry (snd (main w1 componentRegistry db)))))
      = length componentRegistry \<and>
    distinct (map cmp_id
      (Component (snd (main w2 componentRegistry (snd (main w1 componentRegistry db))))))"
proof -
  let ?db1 = "snd (main w1 componentRegistry db)"
  from second have ok2: "(\<forall>k \<le> length componentRegistry. \<not> outage w2 k)"
    and ids: "distinct (map comp_id componentRegistry)"
    by (simp_all add: main_succeeds_iff)
  then have alone: "fst (main w2 componentRegistry db) = None"
    by (simp add: main_succeeds_iff)
  have twice: "Component (snd (main w2 componentRegistry ?db1)) = seeded_rows w2 1 componentRegistry"
    using second by (rule main_success_rows)
  have once: "Component (snd (main w2 componentRegistry db)) = seeded_rows w2 1 componentRegistry"
    using alone by (rule main_success_rows)
  have before: "Component ?db1 = seeded_rows w1 1 componentRegistry"
    using first by (rule main_success_rows)
  show ?thesis
    unfolding twice once before
    using ids catalog_columns_seeded_rows [of w2 1 componentRegistry w1 1]
    by (simp add: length_seeded_rows map_cmp_id_seeded_rows)
qed


theorem seed_idempotent_witness:
  "fst (main (steady 1000) [glow_button, new_button] used_db) = None \<and>
   fst (main (steady 2000) [glow_button, new_button]
     (snd (main (steady 1000) [glow_button, new_button] used_db))) = None \<and>
   Component (snd (main (steady 2000) [glow_button, new_button]
     (snd (main (steady 1000) [glow_button, new_button] used_db))))
     = Component (snd (main (steady 2000) [glow_button, new_button] used_db)) \<and>
   length (Component (snd (main (steady 2000) [glow_button, new_button]
     (snd (main (steady 1000) [glow_button, new_button] used_db))))) = 2 \<and>
   map cmp_id (Component (snd (main (steady 2000) [glow_button, new_button]
     (snd (main (steady 1000) [glow_button, new_button] used_db)))))
     = [''glow-button-1'', ''new-button-1'']"
proof -
  have ids: "map cmp_id (Component (snd (main (steady 2000) [glow_button, new_button]
     (snd (main (steady 1000) [glow_button, new_button] used_db)))))
     = [''glow-button-1'', ''new-button-1'']"
    unfolding main_success_rows [OF main_twice_example] map_cmp_id_seeded_rows
    by (simp add: glow_button_def new_button_def)
  note twice = seed_idempotent [OF main_steady_example main_twice_example]
  have len: "length (Component (snd (main (steady 2000) [glow_button, new_button]
     (snd (main (steady 1000) [glow_button, new_button] used_db))))) = 2"
    using twice [THEN conjunct2, THEN conjunct2, THEN conjunct1] by simp
  show ?thesis
    by (intro conjI main_steady_example main_twice_example twice [THEN conjunct1] len ids)
qed

text \<open>
  C2 as it is stated, with the table after the second run equal to the table after the
  first, fails whenever the clock has moved between the runs. On the sample data, with
  the first run at time 1000 and the second at time 2000, both runs succeed, the rows
  of the first run are created at 1001 and 1002, those of the second at 2001 and 2002,
  and the two tables differ.
\<close>

theorem seed_idempotent_counterexample:
  "fst (main (steady 1000) [glow_button, new_button] used_db) = None \<and>
   fst (main (steady 2000) [glow_button, new_button]
     (snd (main (steady 1000) [glow_button, new_button] used_db))) = None \<and>
   map cmp_createdAt (Component (snd (main (steady 1000) [glow_button, new_button] used_db)))
     = [1001, 1002] \<and>
   map cmp_createdAt (Component (snd (main (steady 2000) [glow_button, new_button]
     (snd (main (steady 1000) [glow_button, new_button] used_db))))) = [2001, 2002] \<and>
   Component (snd (main (steady 2000) [glow_button, new_button]
     (snd (main (steady 1000) [glow_button, new_button] used_db))))
     \<noteq> Component (snd (main (steady 1000) [glow_button, new_button] used_db))"
proof -
  have once: "map cmp_createdAt
      (Component (snd (main (steady 1000) [glow_button, new_button] used_db))) = [1001, 1002]"
    by code_simp
  have twice: "map cmp_createdAt (Component (snd (main (steady 2000) [glow_button, new_button]
      (snd (main (steady 1000) [glow_button, new_button] used_db))))) = [2001, 2002]"
    by code_simp
  have differ: "Component (snd (main (steady 2000) [glow_button, new_button]
      (snd (main (steady 1000) [glow_button, new_button] used_db))))
     \<noteq> Component (snd (main (steady 1000) [glow_button, new_button] used_db))"
  proof
    assume "Component (snd (main (steady 2000) [glow_button, new_button]
        (snd (main (steady 1000) [glow_button, new_button] used_db))))
      = Component (snd (main (steady 1000) [glow_button, new_button] used_db))"
    then have "[2001, 2002] = [1001, 1002 :: nat]"
      using once twice by (simp only:)
    then show False by simp
  qed
  show ?thesis
    by (intro conjI main_steady_example main_twice_example once twice differ)
qed

text \<open>
  C3. A run whose deletion went through and whose promise is rejected has stopped at some
  entry \<open>n\<close> of the catalog: the entries before it were inserted, the insertion of entry
  \<open>n\<close> was rejected with the error of the run, and the database is left as the
  successful run on the first \<open>n\<close> entries leaves it. The Component table holds the rows
  of these \<open>n\<close> entries and nothing else; what it held before the run is not restored.
\<close>

theorem seed_failure_keeps_partial_rows:
  assumes "\<not> outage w 0" and "fst (main w componentRegistry db) = Some e"
  shows "\<exists>n<length componentRegistry.
     fst (main w (take n componentRegistry) db) = None \<and>
     fst (component_create w (Suc n) (seed_data (componentRegistry ! n))
       (snd (main w (take n componentRegistry) db))) = Some e \<and>
     snd (main w componentRegistry db) = snd (main w (take n componentRegistry) db) \<and>
     Component (snd (main w componentRegistry db)) = seeded_rows w 1 (take n componentRegistry) \<and>
     length (Component (snd (main w componentRegistry db))) = n"
proof -
  let ?db0 = "delete_components (\<lambda>r. True) db"
  have unf: "main w xs db = seed_loop w 1 xs ?db0" for xs
    using assms(1) by (simp add: main_unfold)
  from assms(2) have "fst (seed_loop w 1 componentRegistry ?db0) = Some e"
    by (simp only: unf)
  from seed_loop_failure [OF this] obtain n where n: "n < length componentRegistry"
    "fst (seed_loop w 1 (take n componentRegistry) ?db0) = None"
    "fst (component_create w (1 + n) (seed_data (componentRegistry ! n))
       (snd (seed_loop w 1 (take n componentRegistry) ?db0))) = Some e"
    "snd (seed_loop w 1 componentRegistry ?db0) = snd (seed_loop w 1 (take n componentRegistry) ?db0)"
    by (elim exE conjE)
  from n(2) have ok: "fst (main w (take n componentRegistry) db) = None"
    by (simp only: unf)
  have rows: "Component (snd (main w (take n componentRegistry) db))
      = seeded_rows w 1 (take n componentRegistry)"
    using ok by (rule main_success_rows)
  have "n < length componentRegistry \<and>
     fst (main w (take n componentRegistry) db) = None \<and>
     fst (component_create w (Suc n) (seed_data (componentRegistry ! n))
       (snd (main w (take n componentRegistry) db))) = Some e \<and>
     snd (main w componentRegistry db) = snd (main w (take n componentRegistry) db) \<and>
     Component (snd (main w componentRegistry db)) = seeded_rows w 1 (take n componentRegistry) \<and>
     length (Component (snd (main w componentRegistry db))) = n"
    using n ok rows by (simp add: unf length_seeded_rows)
  then show ?thesis by (rule exI)
qed


theorem seed_failure_keeps_partial_rows_witness:
  "\<not> outage (steady 1000) 0 \<and>
   fst (main (steady 1000) [glow_button, new_button, glow_button] used_db)
     = Some (UniqueViolation ''Component_pkey'') \<and>
   (\<exists>n<3.
      snd (main (steady 1000) [glow_button, new_button, glow_button] used_db)
        = snd (main (steady 1000) (take n [glow_button, new_button, glow_button]) used_db) \<and>
      length (Component (snd (main (steady 1000) [glow_button, new_button, glow_button] used_db)))
        = n) \<and>
   map cmp_id (Component (snd (main (steady 1000) [glow_button, new_button, glow_button] used_db)))
     = [''glow-button-1'', ''new-button-1''] \<and>
   map cmp_views (Component (snd (main (steady 1000) [glow_button, new_button, glow_button] used_db)))
     = [0, 0]"
proof -
  have up: "\<not> outage (steady 1000) 0" by (simp add: steady_def)
  have ids: "map cmp_id
      (Component (snd (main (steady 1000) [glow_button, new_button, glow_button] used_db)))
     = [''glow-button-1'', ''new-button-1'']"
    by code_simp
  have views: "map cmp_views
      (Component (snd (main (steady 1000) [glow_button, new_button, glow_button] used_db)))
     = [0, 0]"
    by code_simp
  from seed_failure_keeps_partial_rows [OF up main_duplicate_example]
  have "\<exists>n<3.
      snd (main (steady 1000) [glow_button, new_button, glow_button] used_db)
        = snd (main (steady 1000) (take n [glow_button, new_button, glow_button]) used_db) \<and>
      length (Component (snd (main (steady 1000) [glow_button, new_button, glow_button] used_db)))
        = n"
    by auto
  with up main_duplicate_example ids views show ?thesis by (intro conjI)
qed

text \<open>
  C8. Seeding never touches the User table. In a state that the schema allows, every
  favorite and every version references a component, so the deletion of all components
  (once it has run, that is, unless the database was unreachable for it) takes all of
  them along: both tables are empty after the run.
\<close>

theorem seed_clears_favorites_and_versions:
  assumes "reachable db"
  shows "User (snd (main w componentRegistry db)) = User db \<and>
    (\<not> outage w 0 \<longrightarrow>
       Favorite (snd (main w componentRegistry db)) = [] \<and>
       ComponentVersion (snd (main w componentRegistry db)) = [])"
proof -
  from assms have "references_hold db" by (rule reachable_references_hold)
  then show ?thesis
    by (auto simp: main_other_tables references_hold_def list_all_iff filter_empty_conv)
qed

theorem seed_clears_favorites_and_versions_witness:
  "reachable used_db \<and> \<not> outage (steady 1000) 0 \<and>
   Favorite used_db \<noteq> [] \<and> ComponentVersion used_db \<noteq> [] \<and>
   User (snd (main (steady 1000) [glow_button, new_button] used_db)) = User used_db \<and>
   Favorite (snd (main (steady 1000) [glow_button, new_button] used_db)) = [] \<and>
   ComponentVersion (snd (main (steady 1000) [glow_button, new_button] used_db)) = []"
proof -
  have "\<not> outage (steady 1000) 0" by (simp add: steady_def)
  moreover have "Favorite used_db \<noteq> []" "ComponentVersion used_db \<noteq> []"
    by (simp_all add: used_db_def)
  ultimately show ?thesis
    using seed_clears_favorites_and_versions
      [OF used_db_reachable, of "steady 1000" "[glow_button, new_button]"] used_db_reachable
    by simp
qed

text \<open>
  C9. An entry whose dependencies are falsy (missing, \<^verbatim>\<open>undefined\<close> or \<^verbatim>\<open>null\<close>) is inserted
  with the empty array: after a successful run its row holds the empty list in the
  dependencies column, not NULL.
\<close>

theorem seed_dependencies_default:
  assumes "fst (main w componentRegistry db) = None"
    and "i < length componentRegistry"
    and "\<not> truthy (comp_dependencies (componentRegistry ! i))"
  shows "data_dependencies (seed_data (componentRegistry ! i)) = Array [] \<and>
    cmp_id (Component (snd (main w componentRegistry db)) ! i) = comp_id (componentRegistry ! i) \<and>
    cmp_dependencies (Component (snd (main w componentRegistry db)) ! i) = Some []"
proof -
  have rows: "Component (snd (main w componentRegistry db)) = seeded_rows w 1 componentRegistry"
    using assms(1) by (rule main_success_rows)
  show ?thesis
    unfolding rows using assms(2,3)
    by (simp add: nth_seeded_rows seeded_row_def stored_row_def seed_data_def list_column_def
        logical_or_def)
qed

theorem seed_dependencies_default_witness:
  "fst (main (steady 1000) [glow_button, new_button] used_db) = None \<and>
   (0::nat) < length [glow_button, new_button] \<and>
   comp_dependencies ([glow_button, new_button] ! 0) = Undefined \<and>
   cmp_dependencies (Component (snd (main (steady 1000) [glow_button, new_button] used_db)) ! 0)
     = Some []"
proof -
  have len: "(0::nat) < length [glow_button, new_button]" by simp
  have undef: "comp_dependencies ([glow_button, new_button] ! 0) = Undefined"
    by (simp add: glow_button_def)
  then have falsy: "\<not> truthy (comp_dependencies ([glow_button, new_button] ! 0))"
    by simp
  show ?thesis
    by (intro conjI main_steady_example len undef
        seed_dependencies_default [OF main_steady_example len falsy, THEN conjunct2, THEN conjunct2])
qed

text \<open>
  C10. The data that the script passes for an entry has neither views nor copies, and
  every row of the Component table after a run whose deletion went through has 0 in
  both columns, the default of the schema.
\<close>

theorem seeded_counters_zero:
  assumes "\<not> outage w 0"
    and "r \<in> set (Component (snd (main w componentRegistry db)))"
  shows "data_views (seed_data entry) = None \<and> data_copies (seed_data entry) = None \<and>
    cmp_views r = 0 \<and> cmp_copies r = 0"
proof -
  from main_shape [OF assms(1), of componentRegistry db] obtain n where
    "Component (snd (main w componentRegistry db)) = seeded_rows w 1 (take n componentRegistry)"
    by (elim exE conjE)
  with assms(2) have "r \<in> set (seeded_rows w 1 (take n componentRegistry))" by simp
  then have "cmp_views r = 0 \<and> cmp_copies r = 0"
    using seeded_rows_columns by blast
  then show ?thesis by (simp add: seed_data_def)
qed

theorem seeded_counters_zero_witness:
  "\<not> outage (steady 1000) 0 \<and>
   map cmp_views (Component used_db) = [7] \<and>
   Component (snd (main (steady 1000) [glow_button, new_button] used_db)) \<noteq> [] \<and>
   cmp_views (hd (Component (snd (main (steady 1000) [glow_button, new_button] used_db)))) = 0 \<and>
   cmp_copies (hd (Component (snd (main (steady 1000) [glow_button, new_button] used_db)))) = 0"
proof -
  have up: "\<not> outage (steady 1000) 0" by (simp add: steady_def)
  have old: "map cmp_views (Component used_db) = [7]" by (simp add: used_db_def)
  have "length (Component (snd (main (steady 1000) [glow_button, new_button] used_db))) = 2"
    unfolding main_success_rows [OF main_steady_example] by (simp add: length_seeded_rows)
  then have some: "Component (snd (main (steady 1000) [glow_button, new_button] used_db)) \<noteq> []"
    by auto
  then have mem: "hd (Component (snd (main (steady 1000) [glow_button, new_button] used_db)))
      \<in> set (Component (snd (main (steady 1000) [glow_button, new_button] used_db)))"
    by (rule hd_in_set)
  note zero = seeded_counters_zero [OF up mem, THEN conjunct2, THEN conjunct2]
  show ?thesis
    by (intro conjI up old some zero [THEN conjunct1] zero [THEN conjunct2])
qed

section \<open>The promise chain\<close>

text \<open>
  The two ways the script ends. When \<open>main\<close> is fulfilled, the catch handler is skipped,
  the finally callback disconnects and the process exits with status 0. When \<open>main\<close> is
  rejected, the catch handler logs the error and ends the process with status 1; the
  finally callback has not run by then and never does.
\<close>

lemma seed_script_fulfilled:
  assumes "fst (main w componentRegistry db) = None"
  shows "fst (seed_script w componentRegistry db) =
    \<lparr>exit_status = Some 0, errors_logged = [], disconnect_calls = 1\<rparr>"
  using assms
  by (cases "main w componentRegistry db")
    (simp add: seed_script_def promise_catch_def promise_finally_def prisma_disconnect_def
      launched_def drain_def)

lemma seed_script_rejected:
  assumes "fst (main w componentRegistry db) = Some e"
  shows "fst (seed_script w componentRegistry db) =
    \<lparr>exit_status = Some 1, errors_logged = [e], disconnect_calls = 0\<rparr>"
  using assms
  by (cases "main w componentRegistry db")
    (simp add: seed_script_def promise_catch_def promise_finally_def process_exit_def
      console_error_def launched_def drain_def)

lemma seed_script_database:
  "snd (seed_script w componentRegistry db) = snd (main w componentRegistry db)"
  by (cases "main w componentRegistry db") (simp add: seed_script_def)

text \<open>
  C4, at a catalog that names one id twice: the second insertion violates the primary
  key, the error is logged and the exit status is 1, and \<^verbatim>\<open>prisma.$disconnect()\<close> has
  not been called when the process ends.
\<close>

theorem seed_script_failure_skips_disconnect:
  "fst (main (steady 1000) [glow_button, glow_button] used_db)
     = Some (UniqueViolation ''Component_pkey'') \<and>
   fst (seed_script (steady 1000) [glow_button, glow_button] used_db) =
     \<lparr>exit_status = Some 1, errors_logged = [UniqueViolation ''Component_pkey''],
      disconnect_calls = 0\<rparr>"
proof -
  have rejected: "fst (main (steady 1000) [glow_button, glow_button] used_db)
     = Some (UniqueViolation ''Component_pkey'')"
    by code_simp
  from rejected seed_script_rejected [OF rejected] show ?thesis by (intro conjI)
qed

section \<open>Properties of the client singleton\<close>

lemma load_module_development:
  assumes "node_env \<noteq> Some ''production''"
  shows "load_module node_env g =
    (case global_prisma g of
       Some c \<Rightarrow> (c, g)
     | None \<Rightarrow> (constructed g,
         \<lparr>global_prisma = Some (constructed g), constructed = Suc (constructed g)\<rparr>))"
  using assms
  by (cases g) (simp add: load_module_def new_PrismaClient_def split: option.splits)

lemma reloads_with_global:
  assumes "node_env \<noteq> Some ''production''" and "global_prisma g = Some c"
  shows "reloads node_env n g = (replicate n c, g)"
proof (induction n)
  case 0
  show ?case by simp
next
  case (Suc n)
  from assms have "load_module node_env g = (c, g)"
    by (simp add: load_module_development)
  with Suc show ?case by simp
qed

text \<open>
  C7. Outside production, however often the module is evaluated, every evaluation
  exports the client that the first one exported; at most one client is constructed
  (none when the global was already set), and the global holds that client afterwards.
\<close>

theorem client_singleton:
  assumes "node_env \<noteq> Some ''production''"
  shows "fst (reloads node_env n g) = replicate n (fst (load_module node_env g)) \<and>
    constructed (snd (reloads node_env n g)) =
      (if global_prisma g = None \<and> 0 < n then Suc (constructed g) else constructed g) \<and>
    (0 < n \<longrightarrow> global_prisma (snd (reloads node_env n g)) = Some (fst (load_module node_env g)))"
proof (cases n)
  case 0
  then show ?thesis by simp
next
  case (Suc m)
  obtain c g' where first: "load_module node_env g = (c, g')"
    by (cases "load_module node_env g")
  with assms have set: "global_prisma g' = Some c"
    by (auto simp: load_module_development split: option.splits)
  from first assms have made: "constructed g' =
      (if global_prisma g = None then Suc (constructed g) else constructed g)"
    by (auto simp: load_module_development split: option.splits)
  have "reloads node_env m g' = (replicate m c, g')"
    using assms set by (rule reloads_with_global)
  with first have "reloads node_env (Suc m) g = (replicate (Suc m) c, g')"
    by simp
  with Suc first set made show ?thesis by simp
qed

theorem client_singleton_witness:
  "Some ''development'' \<noteq> Some ''production'' \<and>
   fst (reloads (Some ''development'') 3 \<lparr>global_prisma = None, constructed = 0\<rparr>) = [0, 0, 0] \<and>
   constructed (snd (reloads (Some ''development'') 3 \<lparr>global_prisma = None, constructed = 0\<rparr>)) = 1"
proof -
  have dev: "Some ''development'' \<noteq> Some ''production''" by simp
  have first: "fst (load_module (Some ''development'') \<lparr>global_prisma = None, constructed = 0\<rparr>) = 0"
    by (simp add: load_module_def new_PrismaClient_def)
  note single = client_singleton [OF dev, of 3 "\<lparr>global_prisma = None, constructed = 0\<rparr>"]
  have "fst (reloads (Some ''development'') 3 \<lparr>global_prisma = None, constructed = 0\<rparr>) = [0, 0, 0]"
    using single [THEN conjunct1] first by (simp add: numeral_3_eq_3)
  moreover have
    "constructed (snd (reloads (Some ''development'') 3 \<lparr>global_prisma = None, constructed = 0\<rparr>)) = 1"
    using single [THEN conjunct2, THEN conjunct1] by simp
  ultimately show ?thesis using dev by (intro conjI)
qed

text \<open>In production the global is never set, and a second evaluation constructs anew.\<close>

lemma production_reload_constructs_again:
  "fst (reloads (Some ''production'') 2 \<lparr>global_prisma = None, constructed = 0\<rparr>) = [0, 1]"
  by code_simp

end
